theory Spec2Isabelle
  imports Complex_Main "HOL-Library.Word"
begin

section \<open>JavaScript strings and values\<close>

text \<open>
  A JavaScript string is a sequence of UTF-16 code units. The literals of
  \<^verbatim>\<open>static/chat.js\<close> that matter here are ASCII; \<open>lit\<close> embeds them.
\<close>

type_synonym jsstring = "16 word list"

definition lit :: "string \<Rightarrow> jsstring" where
  "lit s = map of_char s"

text \<open>
  \<^verbatim>\<open>String.prototype.trim\<close> strips, at both ends, the code units that ECMAScript
  calls WhiteSpace or LineTerminator.
\<close>

definition is_ws :: "16 word \<Rightarrow> bool" where
  "is_ws c =
     (c \<in> {0x9, 0xA, 0xB, 0xC, 0xD, 0x20, 0xA0, 0x1680, 0x2028, 0x2029,
            0x202F, 0x205F, 0x3000, 0xFEFF}
      \<or> (0x2000 \<le> c \<and> c \<le> 0x200A))"

definition trim :: "jsstring \<Rightarrow> jsstring" where
  "trim s = rev (dropWhile is_ws (rev (dropWhile is_ws s)))"

text \<open>
  The values \<^verbatim>\<open>response.json()\<close> can resolve with, and \<^verbatim>\<open>undefined\<close>, which a
  property read yields for a missing property. A number is a finite double (a
  rational) or an infinity (what \<^verbatim>\<open>JSON.parse\<close> makes of a literal too large for a
  double); JSON has no NaN. An object is the association list of its own
  properties, the first binding of a key being the property's value.
\<close>

datatype double = Finite rat | Infinite

datatype jsval =
    JUndefined
  | JNull
  | JBool bool
  | JNum double
  | JStr jsstring
  | JArr "jsval list"
  | JObj "(jsstring \<times> jsval) list"

datatype error = TypeError

definition and_then :: "error + 'a \<Rightarrow> ('a \<Rightarrow> error + 'b) \<Rightarrow> error + 'b" where
  "and_then m f = (case m of Inl e \<Rightarrow> Inl e | Inr v \<Rightarrow> f v)"

text \<open>ToBoolean: what \<^verbatim>\<open>!v\<close>, \<^verbatim>\<open>v && ...\<close> and \<^verbatim>\<open>if (v)\<close> test.\<close>

fun truthy :: "jsval \<Rightarrow> bool" where
  "truthy JUndefined = False"
| "truthy JNull = False"
| "truthy (JBool b) = b"
| "truthy (JNum d) = (d \<noteq> Finite 0)"
| "truthy (JStr s) = (s \<noteq> [])"
| "truthy (JArr _) = True"
| "truthy (JObj _) = True"

fun typeof :: "jsval \<Rightarrow> jsstring" where
  "typeof JUndefined = lit ''undefined''"
| "typeof JNull = lit ''object''"
| "typeof (JBool _) = lit ''boolean''"
| "typeof (JNum _) = lit ''number''"
| "typeof (JStr _) = lit ''string''"
| "typeof (JArr _) = lit ''object''"
| "typeof (JObj _) = lit ''object''"

text \<open>
  The property read \<^verbatim>\<open>v.k\<close>. On \<^verbatim>\<open>null\<close> and \<^verbatim>\<open>undefined\<close> it throws a TypeError.
  On an object it is the own property, else \<^verbatim>\<open>undefined\<close>. The widget reads only
  \<^verbatim>\<open>text\<close>, \<^verbatim>\<open>message\<close>, \<^verbatim>\<open>error\<close> and \<^verbatim>\<open>details\<close>, none of which the built-in
  prototypes of booleans, numbers, strings, arrays or objects define, so on every
  other value the read is \<^verbatim>\<open>undefined\<close>.
\<close>

fun get_prop :: "jsval \<Rightarrow> jsstring \<Rightarrow> error + jsval" where
  "get_prop JUndefined k = Inl TypeError"
| "get_prop JNull k = Inl TypeError"
| "get_prop (JObj kvs) k = Inr (case map_of kvs k of None \<Rightarrow> JUndefined | Some v \<Rightarrow> v)"
| "get_prop _ k = Inr JUndefined"

section \<open>The widget's state\<close>

text \<open>An entry of \<^verbatim>\<open>history\<close>: \<^verbatim>\<open>{ role, text }\<close>.\<close>

record turn =
  role :: jsstring
  turn_text :: jsstring

text \<open>
  A row of the log: the tokens of its class attribute (\<^verbatim>\<open>classList\<close>) and its
  \<^verbatim>\<open>textContent\<close>.
\<close>

record row =
  classes :: "jsstring list"
  textContent :: jsstring

text \<open>
  The body of a request to \<^verbatim>\<open>/api/chat\<close>: \<^verbatim>\<open>JSON.stringify({ history, model })\<close>
  serialises the history as it is when \<^verbatim>\<open>fetch\<close> is called, so the model keeps
  that snapshot.
\<close>

record request =
  req_history :: "turn list"
  req_model :: jsstring

text \<open>
  Where a call of the async function \<^verbatim>\<open>requestReply\<close> is suspended: at
  \<^verbatim>\<open>await fetch(...)\<close>, or at \<^verbatim>\<open>await response.json()\<close> holding the response's
  \<^verbatim>\<open>ok\<close> flag.
\<close>

datatype phase = AwaitFetch | AwaitJson bool

text \<open>
  The closure's variables and the DOM state the code reads and writes. Rows are
  only ever appended to the log, so the position of a row in \<open>chat_log\<close> stands for
  the node reference \<^verbatim>\<open>assistantNode\<close>. \<open>requests\<close> lists the \<^verbatim>\<open>fetch\<close> calls
  made so far; \<open>awaiting\<close> lists the suspended calls of \<^verbatim>\<open>requestReply\<close>, each
  with its \<^verbatim>\<open>assistantNode\<close>. Scrolling (\<^verbatim>\<open>log.scrollTop\<close>) is layout and is left
  out.
\<close>

record widget =
  history :: "turn list"
  chat_log :: "row list"
  input_value :: jsstring
  input_disabled :: bool
  send_disabled :: bool
  input_focused :: bool
  container_open :: bool
  requests :: "request list"
  awaiting :: "(nat \<times> phase) list"

definition system_turn :: turn where
  "system_turn =
     \<lparr>role = lit ''system'',
      turn_text = lit (''You are a concise, friendly assistant who helps students understand ''
        @ ''the lesson content. Keep answers focused on the provided materials and give ''
        @ ''short explanations.'')\<rparr>"

text \<open>The state once the script has run on a page that carries a lesson key.\<close>

definition init_widget :: widget where
  "init_widget =
     \<lparr>history = [system_turn], chat_log = [], input_value = [],
      input_disabled = False, send_disabled = False, input_focused = False,
      container_open = False, requests = [], awaiting = []\<rparr>"

section \<open>The functions of the widget\<close>

text \<open>
  \<^verbatim>\<open>appendRow(role, text)\<close>; it is called with the roles \<^verbatim>\<open>"me"\<close> and \<^verbatim>\<open>"bot"\<close> only,
  so the class attribute has the two tokens written here.
\<close>

definition appendRow :: "jsstring \<Rightarrow> jsstring \<Rightarrow> widget \<Rightarrow> nat \<times> widget" where
  "appendRow r t s =
     (length (chat_log s),
      s\<lparr>chat_log := chat_log s @ [\<lparr>classes = [lit ''lesson-chat-row'', r], textContent = t\<rparr>]\<rparr>)"

text \<open>\<^verbatim>\<open>input.focus()\<close>: a disabled control does not take the focus.\<close>

definition focus_input :: "widget \<Rightarrow> widget" where
  "focus_input s = (if input_disabled s then s else s\<lparr>input_focused := True\<rparr>)"

definition setPending :: "bool \<Rightarrow> widget \<Rightarrow> widget" where
  "setPending isPending s =
     (let s1 = s\<lparr>input_disabled := isPending\<rparr>;
          s2 = s1\<lparr>send_disabled := isPending\<rparr>
      in if \<not> isPending then focus_input s2 else s2)"

text \<open>\<^verbatim>\<open>node.classList.add(c)\<close> and \<^verbatim>\<open>node.textContent = t\<close> on the row at position \<open>n\<close>.\<close>

definition classList_add :: "nat \<Rightarrow> jsstring \<Rightarrow> widget \<Rightarrow> widget" where
  "classList_add n c s =
     s\<lparr>chat_log := (chat_log s)[n := (let r = chat_log s ! n in
          if c \<in> set (classes r) then r else r\<lparr>classes := classes r @ [c]\<rparr>)]\<rparr>"

definition set_textContent :: "nat \<Rightarrow> jsstring \<Rightarrow> widget \<Rightarrow> widget" where
  "set_textContent n t s = s\<lparr>chat_log := (chat_log s)[n := (chat_log s ! n)\<lparr>textContent := t\<rparr>]\<rparr>"

text \<open>
  \<^verbatim>\<open>requestReply\<close> up to its first \<^verbatim>\<open>await\<close> (lines 67 to 79): the result is the
  position of \<^verbatim>\<open>assistantNode\<close> and the state with the request issued.
\<close>

definition requestReply_begin :: "jsstring \<Rightarrow> widget \<Rightarrow> nat \<times> widget" where
  "requestReply_begin message s =
     (let s1 = s\<lparr>history := history s @ [\<lparr>role = lit ''user'', turn_text = message\<rparr>]\<rparr>;
          (me, s2) = appendRow (lit ''me'') message s1;
          (assistantNode, s3) = appendRow (lit ''bot'') (lit ''...'') s2;
          s4 = setPending True s3;
          s5 = s4\<lparr>requests := requests s4 @
                 [\<lparr>req_history = history s4, req_model = lit ''gpt-5-2025-08-07''\<rparr>]\<rparr>
      in (assistantNode, s5))"

text \<open>The \<^verbatim>\<open>catch\<close> block of the \<^verbatim>\<open>fetch\<close> (lines 81 to 84).\<close>

definition fetch_rejected :: "nat \<Rightarrow> widget \<Rightarrow> widget" where
  "fetch_rejected assistantNode s =
     setPending False
       (set_textContent assistantNode (lit ''Network error. Please try again.'')
         (classList_add assistantNode (lit ''meta'') s))"

text \<open>The \<^verbatim>\<open>catch\<close> block of \<^verbatim>\<open>response.json()\<close> (lines 91 to 94).\<close>

definition json_rejected :: "nat \<Rightarrow> widget \<Rightarrow> widget" where
  "json_rejected assistantNode s =
     setPending False
       (set_textContent assistantNode (lit ''Invalid response from server.'')
         (classList_add assistantNode (lit ''meta'') s))"

text \<open>The template \<^verbatim>\<open>` (${d})`\<close>.\<close>

definition paren :: "jsstring \<Rightarrow> jsstring" where
  "paren d = lit '' ('' @ d @ lit '')''"

text \<open>
  The value of \<^verbatim>\<open>detail\<close> after lines 101 to 118, one definition for each arm of
  the \<^verbatim>\<open>if\<close> / \<^verbatim>\<open>else if\<close> chain: \<open>detail_details\<close> is the last arm (lines 110 to
  117), \<open>detail_error\<close> the chain from \<^verbatim>\<open>else if (payload.error)\<close> on (lines 106 to
  117), \<open>detail_message\<close> the whole chain, and \<open>detail\<close> adds the guard
  \<^verbatim>\<open>if (payload)\<close>.
\<close>

definition detail_details :: "jsval \<Rightarrow> error + jsstring" where
  "detail_details payload =
     and_then (get_prop payload (lit ''details'')) (\<lambda>details.
       if \<not> truthy details then Inr []
       else and_then (get_prop details (lit ''error'')) (\<lambda>err.
         if \<not> truthy err then Inr []
         else (case err of
             JStr e \<Rightarrow> Inr (paren e)
           | _ \<Rightarrow>
             if \<not> truthy err then Inr []
             else and_then (get_prop err (lit ''message'')) (\<lambda>m.
               case m of JStr ms \<Rightarrow> Inr (paren ms) | _ \<Rightarrow> Inr []))))"

definition detail_error :: "jsval \<Rightarrow> error + jsstring" where
  "detail_error payload =
     and_then (get_prop payload (lit ''error'')) (\<lambda>e.
       if truthy e then (case e of JStr es \<Rightarrow> Inr (paren es) | _ \<Rightarrow> Inr [])
       else detail_details payload)"

definition detail_message :: "jsval \<Rightarrow> error + jsstring" where
  "detail_message payload =
     and_then (get_prop payload (lit ''message'')) (\<lambda>message.
       case message of
         JStr m \<Rightarrow> if truthy (JStr (trim m)) then Inr (paren (trim m)) else detail_error payload
       | _ \<Rightarrow> detail_error payload)"

definition detail :: "jsval \<Rightarrow> error + jsstring" where
  "detail payload = (if truthy payload then detail_message payload else Inr [])"

text \<open>Lines 100 to 120: the branch of a reply that cannot be used.\<close>

definition reply_failed :: "nat \<Rightarrow> jsval \<Rightarrow> widget \<Rightarrow> error + widget" where
  "reply_failed assistantNode payload s =
     (let s1 = classList_add assistantNode (lit ''meta'') s
      in and_then (detail payload) (\<lambda>d.
           Inr (set_textContent assistantNode (lit ''Could not get a reply'' @ d @ lit ''.'') s1)))"

text \<open>
  Lines 123 and 124: the row takes the trimmed reply, or the fixed phrase when
  that is the empty string, and \<^verbatim>\<open>history.push\<close> reads the row's text back.
\<close>

definition reply_ok :: "nat \<Rightarrow> jsstring \<Rightarrow> widget \<Rightarrow> widget" where
  "reply_ok assistantNode t s =
     (let s1 = set_textContent assistantNode
                 (if truthy (JStr (trim t)) then trim t
                  else lit ''I do not have an answer right now.'') s
      in s1\<lparr>history := history s1 @
            [\<lparr>role = lit ''assistant'', turn_text = textContent (chat_log s1 ! assistantNode)\<rparr>]\<rparr>)"

text \<open>
  \<^verbatim>\<open>requestReply\<close> from line 97 on, once \<^verbatim>\<open>response.json()\<close> has resolved with
  \<open>payload\<close>. The condition of line 99 reads \<^verbatim>\<open>payload.text\<close> only when the two
  tests before it are false.
\<close>

definition json_resolved :: "nat \<Rightarrow> bool \<Rightarrow> jsval \<Rightarrow> widget \<Rightarrow> error + widget" where
  "json_resolved assistantNode ok payload s =
     (let s1 = setPending False s
      in if \<not> ok \<or> \<not> truthy payload then reply_failed assistantNode payload s1
         else and_then (get_prop payload (lit ''text'')) (\<lambda>t.
           case t of
             JStr ts \<Rightarrow> Inr (reply_ok assistantNode ts s1)
           | _ \<Rightarrow> reply_failed assistantNode payload s1))"

text \<open>
  How the two awaited promises of one call settle: \<^verbatim>\<open>fetch\<close> rejects; or it
  resolves with a response (its \<^verbatim>\<open>ok\<close> flag) whose \<^verbatim>\<open>json()\<close> rejects, or
  resolves with a value.
\<close>

datatype outcome = TransportFailure | MalformedBody bool | Parsed bool jsval

text \<open>
  One call of \<^verbatim>\<open>requestReply(message)\<close> run to its end, as a function of how its
  promises settle. \<open>Inl\<close> is an exception leaving the function.
\<close>

definition requestReply :: "jsstring \<Rightarrow> outcome \<Rightarrow> widget \<Rightarrow> error + widget" where
  "requestReply message out s =
     (case requestReply_begin message s of (assistantNode, s1) \<Rightarrow>
        (case out of
           TransportFailure \<Rightarrow> Inr (fetch_rejected assistantNode s1)
         | MalformedBody ok \<Rightarrow> Inr (json_rejected assistantNode s1)
         | Parsed ok payload \<Rightarrow> json_resolved assistantNode ok payload s1))"

text \<open>
  Two readings of one call made in state \<open>s\<close>: the position of the row it holds as
  \<^verbatim>\<open>assistantNode\<close>, and the text that row shows when the call has ended.
\<close>

definition placeholder :: "jsstring \<Rightarrow> widget \<Rightarrow> nat" where
  "placeholder message s = fst (requestReply_begin message s)"

definition displayed :: "jsstring \<Rightarrow> outcome \<Rightarrow> widget \<Rightarrow> jsstring option" where
  "displayed message out s =
     (case requestReply message out s of
        Inl e \<Rightarrow> None
      | Inr s' \<Rightarrow> Some (textContent (chat_log s' ! placeholder message s)))"

text \<open>The entry that line 67 pushes.\<close>

definition user_turn :: "jsstring \<Rightarrow> turn" where
  "user_turn message = \<lparr>role = lit ''user'', turn_text = message\<rparr>"

section \<open>The widget as an event-driven machine\<close>

text \<open>
  What the event loop delivers: a click on the toggle, the user editing the text
  field, a submit of the form, and the settling of a promise that the call with
  the given \<^verbatim>\<open>assistantNode\<close> awaits.
\<close>

datatype event =
    Click
  | Input jsstring
  | Submit
  | FetchRejected nat
  | FetchResolved nat bool
  | JsonRejected nat
  | JsonResolved nat jsval

text \<open>The click listener of the toggle (lines 127 to 132).\<close>

definition on_click :: "widget \<Rightarrow> widget" where
  "on_click s =
     (let s1 = s\<lparr>container_open := \<not> container_open s\<rparr>
      in if container_open s1 then focus_input s1 else s1)"

text \<open>
  The submit listener of the form (lines 134 to 142). The call of \<^verbatim>\<open>requestReply\<close>
  runs to its first \<^verbatim>\<open>await\<close> and is then suspended.
\<close>

definition on_submit :: "widget \<Rightarrow> widget" where
  "on_submit s =
     (let message = trim (input_value s)
      in if \<not> truthy (JStr message) \<or> send_disabled s then s
         else (case requestReply_begin message (s\<lparr>input_value := []\<rparr>) of
                 (assistantNode, s1) \<Rightarrow>
                   s1\<lparr>awaiting := awaiting s1 @ [(assistantNode, AwaitFetch)]\<rparr>))"

definition resume :: "nat \<Rightarrow> widget \<Rightarrow> widget" where
  "resume n s = s\<lparr>awaiting := filter (\<lambda>(n', p). n' \<noteq> n) (awaiting s)\<rparr>"

text \<open>
  One event. A promise settles only for a call that awaits it; an event for which
  no call is waiting cannot occur, and the machine leaves the state as it is.
\<close>

fun step :: "event \<Rightarrow> widget \<Rightarrow> error + widget" where
  "step Click s = Inr (on_click s)"
| "step (Input v) s = Inr (s\<lparr>input_value := v\<rparr>)"
| "step Submit s = Inr (on_submit s)"
| "step (FetchRejected n) s =
     (case map_of (awaiting s) n of
        Some AwaitFetch \<Rightarrow> Inr (fetch_rejected n (resume n s))
      | _ \<Rightarrow> Inr s)"
| "step (FetchResolved n ok) s =
     (case map_of (awaiting s) n of
        Some AwaitFetch \<Rightarrow> Inr (s\<lparr>awaiting := awaiting (resume n s) @ [(n, AwaitJson ok)]\<rparr>)
      | _ \<Rightarrow> Inr s)"
| "step (JsonRejected n) s =
     (case map_of (awaiting s) n of
        Some (AwaitJson ok) \<Rightarrow> Inr (json_rejected n (resume n s))
      | _ \<Rightarrow> Inr s)"
| "step (JsonResolved n payload) s =
     (case map_of (awaiting s) n of
        Some (AwaitJson ok) \<Rightarrow> json_resolved n ok payload (resume n s)
      | _ \<Rightarrow> Inr s)"

text \<open>The states the widget can be in: those some sequence of events leads to.\<close>

inductive reachable :: "widget \<Rightarrow> bool" where
  reachable_init: "reachable init_widget"
| reachable_step: "reachable s \<Longrightarrow> step e s = Inr s' \<Longrightarrow> reachable s'"

text \<open>A sequence of events, stopping at the first exception.\<close>

fun run :: "event list \<Rightarrow> widget \<Rightarrow> error + widget" where
  "run [] s = Inr s"
| "run (e # es) s = and_then (step e s) (run es)"

text \<open>
  The events that carry one call with \<^verbatim>\<open>assistantNode\<close> \<open>n\<close> from its first
  \<^verbatim>\<open>await\<close> to its end, for each way its promises can settle.
\<close>

fun events_of :: "nat \<Rightarrow> outcome \<Rightarrow> event list" where
  "events_of n TransportFailure = [FetchRejected n]"
| "events_of n (MalformedBody ok) = [FetchResolved n ok, JsonRejected n]"
| "events_of n (Parsed ok payload) = [FetchResolved n ok, JsonResolved n payload]"

text \<open>An event that ends a call that is waiting for it.\<close>

definition completes :: "event \<Rightarrow> widget \<Rightarrow> bool" where
  "completes e s =
     (case e of
        FetchRejected n \<Rightarrow> map_of (awaiting s) n = Some AwaitFetch
      | JsonRejected n \<Rightarrow>
          (case map_of (awaiting s) n of Some (AwaitJson ok) \<Rightarrow> True | _ \<Rightarrow> False)
      | JsonResolved n payload \<Rightarrow>
          (case map_of (awaiting s) n of Some (AwaitJson ok) \<Rightarrow> True | _ \<Rightarrow> False)
      | _ \<Rightarrow> False)"

section \<open>What the specification says of the failure text\<close>

text \<open>
  The own property \<open>k\<close> of a parsed JSON value, when it is an object that has one.
\<close>

definition own_prop :: "jsval \<Rightarrow> jsstring \<Rightarrow> jsval option" where
  "own_prop v k = (case v of JObj kvs \<Rightarrow> map_of kvs k | _ \<Rightarrow> None)"

text \<open>The response has a string-typed \<^verbatim>\<open>text\<close> field.\<close>

definition has_string_text :: "jsval \<Rightarrow> bool" where
  "has_string_text payload =
     (case own_prop payload (lit ''text'') of Some (JStr t) \<Rightarrow> True | _ \<Rightarrow> False)"

text \<open>
  The detail as the specification words it, one definition for each extraction:
  the top-level \<^verbatim>\<open>message\<close> if it is a non-empty string; the top-level \<^verbatim>\<open>error\<close> if
  it is a string; \<^verbatim>\<open>details.error\<close>, a string or an object with a string
  \<^verbatim>\<open>message\<close>. \<open>spec_text\<close> takes the first extraction that succeeds, in that
  order, and adds no suffix when none does.
\<close>

definition spec_message :: "jsval \<Rightarrow> jsstring option" where
  "spec_message p =
     (case own_prop p (lit ''message'') of
        Some (JStr m) \<Rightarrow> if m \<noteq> [] then Some m else None
      | _ \<Rightarrow> None)"

definition spec_error :: "jsval \<Rightarrow> jsstring option" where
  "spec_error p = (case own_prop p (lit ''error'') of Some (JStr e) \<Rightarrow> Some e | _ \<Rightarrow> None)"

definition spec_details_error :: "jsval \<Rightarrow> jsstring option" where
  "spec_details_error p =
     (case own_prop p (lit ''details'') of
        None \<Rightarrow> None
      | Some d \<Rightarrow>
          (case own_prop d (lit ''error'') of
             None \<Rightarrow> None
           | Some (JStr e) \<Rightarrow> Some e
           | Some eo \<Rightarrow>
               (case own_prop eo (lit ''message'') of Some (JStr m) \<Rightarrow> Some m | _ \<Rightarrow> None)))"

fun first_of :: "'a option list \<Rightarrow> 'a option" where
  "first_of [] = None"
| "first_of (Some x # xs) = Some x"
| "first_of (None # xs) = first_of xs"

definition spec_text :: "jsval \<Rightarrow> jsstring" where
  "spec_text p =
     lit ''Could not get a reply''
       @ (case first_of [spec_message p, spec_error p, spec_details_error p] of
            None \<Rightarrow> [] | Some d \<Rightarrow> paren d)
       @ lit ''.''"

text \<open>
  The same with the wording amended: the \<^verbatim>\<open>message\<close> counts when it is a string
  that is not empty once trimmed, and it is the trimmed string that is shown; a
  truthy \<^verbatim>\<open>error\<close> decides the detail on its own (itself when a string, no suffix
  otherwise); only a missing or falsy \<^verbatim>\<open>error\<close> lets \<^verbatim>\<open>details.error\<close> be
  tried, which counts when it is truthy.
\<close>

definition amended_message :: "jsval \<Rightarrow> jsstring option" where
  "amended_message p =
     (case own_prop p (lit ''message'') of
        Some (JStr m) \<Rightarrow> if trim m \<noteq> [] then Some (trim m) else None
      | _ \<Rightarrow> None)"

definition amended_details_error :: "jsval \<Rightarrow> jsstring option" where
  "amended_details_error p =
     (case own_prop p (lit ''details'') of
        None \<Rightarrow> None
      | Some d \<Rightarrow>
          (case own_prop d (lit ''error'') of
             None \<Rightarrow> None
           | Some (JStr e) \<Rightarrow> if e \<noteq> [] then Some e else None
           | Some eo \<Rightarrow>
               if truthy eo
               then (case own_prop eo (lit ''message'') of Some (JStr m) \<Rightarrow> Some m | _ \<Rightarrow> None)
               else None))"

definition amended_text :: "jsval \<Rightarrow> jsstring" where
  "amended_text p =
     lit ''Could not get a reply''
       @ (case amended_message p of
            Some m \<Rightarrow> paren m
          | None \<Rightarrow>
              (case own_prop p (lit ''error'') of
                 Some (JStr e) \<Rightarrow>
                   if e \<noteq> [] then paren e
                   else (case amended_details_error p of None \<Rightarrow> [] | Some d \<Rightarrow> paren d)
               | Some eo \<Rightarrow>
                   if truthy eo then []
                   else (case amended_details_error p of None \<Rightarrow> [] | Some d \<Rightarrow> paren d)
               | None \<Rightarrow> (case amended_details_error p of None \<Rightarrow> [] | Some d \<Rightarrow> paren d)))
       @ lit ''.''"

section \<open>Invariants of the reachable states\<close>

text \<open>
  A row that shows a reply: a \<^verbatim>\<open>bot\<close> row that was not marked \<^verbatim>\<open>meta\<close>. The
  replies shown are the texts of those rows, in the order of the log, leaving out
  the rows that a suspended call still holds as its placeholder.
\<close>

definition is_reply_row :: "row \<Rightarrow> bool" where
  "is_reply_row r \<longleftrightarrow> lit ''bot'' \<in> set (classes r) \<and> lit ''meta'' \<notin> set (classes r)"

definition replied_rows_of :: "nat list \<Rightarrow> row list \<Rightarrow> jsstring list" where
  "replied_rows_of ns rows =
     map (textContent \<circ> snd)
       (filter (\<lambda>(i, r). is_reply_row r \<and> i \<notin> set ns) (enumerate 0 rows))"

definition replied_rows :: "widget \<Rightarrow> jsstring list" where
  "replied_rows s = replied_rows_of (map fst (awaiting s)) (chat_log s)"

definition assistant_texts :: "widget \<Rightarrow> jsstring list" where
  "assistant_texts s = map turn_text (filter (\<lambda>t. role t = lit ''assistant'') (history s))"

definition bot_classes :: "jsstring list" where
  "bot_classes = [lit ''lesson-chat-row'', lit ''bot'']"

text \<open>
  At most one call is suspended, exactly when the send button is disabled, and
  its placeholder is the last row of the log, still an unmarked \<^verbatim>\<open>bot\<close> row.
\<close>

definition single_flight :: "widget \<Rightarrow> bool" where
  "single_flight s \<longleftrightarrow>
     (awaiting s = [] \<and> \<not> send_disabled s) \<or>
     (\<exists>ph. awaiting s = [(length (chat_log s) - 1, ph)] \<and> send_disabled s \<and>
        chat_log s \<noteq> [] \<and> classes (last (chat_log s)) = bot_classes)"

definition roles_ok :: "widget \<Rightarrow> bool" where
  "roles_ok s \<longleftrightarrow>
     history s \<noteq> [] \<and> hd (history s) = system_turn \<and>
     list_all (\<lambda>t. role t \<in> {lit ''system'', lit ''user'', lit ''assistant''}) (history s)"

definition replies_shown :: "widget \<Rightarrow> bool" where
  "replies_shown s \<longleftrightarrow>
     list_all (\<lambda>t. role t = lit ''assistant'' \<longrightarrow> turn_text t \<noteq> []) (history s) \<and>
     assistant_texts s = replied_rows s"

definition widget_inv :: "widget \<Rightarrow> bool" where
  "widget_inv s \<longleftrightarrow> single_flight s \<and> roles_ok s \<and> replies_shown s"

section \<open>Example inputs and states\<close>

definition shadowed_payload :: jsval where
  "shadowed_payload =
     JObj [(lit ''error'', JNum (Finite 42)),
           (lit ''details'', JObj [(lit ''error'', JStr (lit ''boom''))])]"

definition rate_limited_payload :: jsval where
  "rate_limited_payload = JObj [(lit ''error'', JStr (lit ''rate_limited''))]"

definition bad_token_payload :: jsval where
  "bad_token_payload =
     JObj [(lit ''details'',
            JObj [(lit ''error'', JObj [(lit ''message'', JStr (lit ''bad token''))])])]"

definition hello_payload :: jsval where
  "hello_payload = JObj [(lit ''text'', JStr (lit ''  Hello!  ''))]"

definition blank_payload :: jsval where
  "blank_payload = JObj [(lit ''text'', JStr (lit ''   ''))]"

text \<open>
  The user has typed \<^verbatim>\<open>" hi "\<close>; has then submitted it; and the reply
  \<^verbatim>\<open>{ text: "  Hello!  " }\<close> has arrived.
\<close>

definition typed_widget :: widget where
  "typed_widget = init_widget\<lparr>input_value := lit '' hi ''\<rparr>"

definition pending_widget :: widget where
  "pending_widget = on_submit typed_widget"

definition answered_widget :: widget where
  "answered_widget =
     reply_ok 1 (lit ''  Hello!  '') (setPending False (resume 1 pending_widget))"

section \<open>Facts about literals and property reads\<close>

lemma unat_of_char: "unat (of_char c :: 16 word) = of_char c"
proof -
  have "(of_char c :: nat) < 2 ^ LENGTH(16)"
    by (rule less_trans [OF nat_of_char_less_256]) simp
  then have "unat (of_nat (of_char c) :: 16 word) = of_char c"
    by (simp only: unat_of_nat mod_less)
  then show ?thesis by (simp only: of_nat_of_char)
qed

lemma of_char_word_inj: "(of_char c :: 16 word) = of_char d \<Longrightarrow> c = d"
proof -
  assume "(of_char c :: 16 word) = of_char d"
  then have "unat (of_char c :: 16 word) = unat (of_char d :: 16 word)" by simp
  then have "(of_char c :: nat) = of_char d" by (simp only: unat_of_char)
  then show ?thesis by simp
qed

lemma lit_eq_iff [simp]: "lit a = lit b \<longleftrightarrow> a = b"
proof
  assume "lit a = lit b"
  then show "a = b"
    unfolding lit_def
  proof (induction a arbitrary: b)
    case Nil then show ?case by simp
  next
    case (Cons x xs)
    then show ?case by (cases b) (auto dest: of_char_word_inj)
  qed
qed simp

lemma lit_Nil_iff [simp]: "lit a = [] \<longleftrightarrow> a = []" "[] = lit a \<longleftrightarrow> a = []"
  by (auto simp: lit_def)

lemma lit_append: "lit (a @ b) = lit a @ lit b"
  by (simp add: lit_def)

text \<open>
  The definitions above write the test \<^verbatim>\<open>typeof v === "string"\<close> as a match on
  \<open>JStr\<close>; the two agree.
\<close>

lemma typeof_string: "typeof v = lit ''string'' \<longleftrightarrow> (\<exists>x. v = JStr x)"
  by (cases v) simp_all

section \<open>One call of requestReply\<close>

lemma requestReply_begin_eq:
  "requestReply_begin message s =
     (Suc (length (chat_log s)),
      s\<lparr>history := history s @ [\<lparr>role = lit ''user'', turn_text = message\<rparr>],
        chat_log := chat_log s @
          [\<lparr>classes = [lit ''lesson-chat-row'', lit ''me''], textContent = message\<rparr>,
           \<lparr>classes = [lit ''lesson-chat-row'', lit ''bot''], textContent = lit ''...''\<rparr>],
        input_disabled := True, send_disabled := True,
        requests := requests s @
          [\<lparr>req_history = history s @ [\<lparr>role = lit ''user'', turn_text = message\<rparr>],
            req_model = lit ''gpt-5-2025-08-07''\<rparr>]\<rparr>)"
  by (simp add: requestReply_begin_def appendRow_def setPending_def)

lemma upd_last2 [simp]: "(xs @ [a, b])[Suc (length xs) := c] = xs @ [a, c]"
  by (simp add: list_update_append)

lemma nth_last2 [simp]: "(xs @ [a, b]) ! Suc (length xs) = b"
  by (simp add: nth_append)

lemma get_prop_truthy:
  "truthy v \<Longrightarrow> get_prop v k = Inr (case own_prop v k of None \<Rightarrow> JUndefined | Some w \<Rightarrow> w)"
  by (cases v) (simp_all add: own_prop_def)

lemma and_then_Inr [simp]: "and_then (Inr v) f = f v"
  by (simp add: and_then_def)

lemma detail_details_total: "truthy payload \<Longrightarrow> \<exists>d. detail_details payload = Inr d"
  by (auto simp: detail_details_def get_prop_truthy split: jsval.splits option.splits)

lemma detail_total: "\<exists>d. detail payload = Inr d"
proof (cases "truthy payload")
  case True
  from detail_details_total [OF True] obtain d where d: "detail_details payload = Inr d" ..
  with True show ?thesis
    by (auto simp: detail_def detail_message_def detail_error_def get_prop_truthy
        split: jsval.splits option.splits)
next
  case False
  then show ?thesis by (simp add: detail_def)
qed

lemma json_resolved_total: "\<exists>s'. json_resolved n ok payload s = Inr s'"
proof -
  obtain d where d: "detail payload = Inr d" using detail_total by blast
  show ?thesis
    by (cases "truthy payload")
       (auto simp: json_resolved_def reply_failed_def d get_prop_truthy Let_def
          split: jsval.splits option.splits)
qed

lemma requestReply_total: "\<exists>s'. requestReply message out s = Inr s'"
  by (cases out) (auto simp: requestReply_def requestReply_begin_eq json_resolved_total)

lemma step_total: "\<exists>s'. step e s = Inr s'"
  by (cases e) (auto simp: json_resolved_total split: option.splits phase.splits)

lemmas exchange_defs =
  requestReply_def requestReply_begin_eq placeholder_def user_turn_def
  fetch_rejected_def json_rejected_def json_resolved_def reply_failed_def reply_ok_def
  setPending_def focus_input_def classList_add_def set_textContent_def Let_def

section \<open>The invariant is kept by every event\<close>

lemma replied_rows_of_snoc:
  "replied_rows_of ns (xs @ [r]) =
     replied_rows_of ns xs @ (if is_reply_row r \<and> length xs \<notin> set ns then [textContent r] else [])"
  by (simp add: replied_rows_of_def enumerate_append_eq)

lemma replied_rows_of_above:
  "\<forall>n\<in>set ns. length xs \<le> n \<Longrightarrow> replied_rows_of ns xs = replied_rows_of [] xs"
proof -
  assume a: "\<forall>n\<in>set ns. length xs \<le> n"
  have "filter (\<lambda>(i, r). is_reply_row r \<and> i \<notin> set ns) (enumerate 0 xs)
      = filter (\<lambda>(i, r). is_reply_row r \<and> i \<notin> set []) (enumerate 0 xs)"
    by (rule filter_cong) (use a in \<open>auto simp: in_set_enumerate_eq\<close>)
  then show ?thesis by (simp add: replied_rows_of_def)
qed

lemma replied_rows_of_above1:
  "length xs \<le> n \<Longrightarrow> replied_rows_of [n] xs = replied_rows_of [] xs"
  by (rule replied_rows_of_above) simp

lemma bot_is_reply: "classes r = bot_classes \<Longrightarrow> is_reply_row r"
  by (simp add: is_reply_row_def bot_classes_def)

lemma single_flight_init: "single_flight init_widget"
  by (simp add: single_flight_def init_widget_def)

lemma on_submit_idle:
  "\<not> send_disabled s \<Longrightarrow> trim (input_value s) \<noteq> [] \<Longrightarrow>
   on_submit s = (snd (requestReply_begin (trim (input_value s)) (s\<lparr>input_value := []\<rparr>)))
      \<lparr>awaiting := awaiting s @ [(Suc (length (chat_log s)), AwaitFetch)]\<rparr>"
  by (simp add: on_submit_def requestReply_begin_eq Let_def)

lemma on_submit_noop:
  "send_disabled s \<or> trim (input_value s) = [] \<Longrightarrow> on_submit s = s"
  by (auto simp add: on_submit_def Let_def)

lemma on_click_fields [simp]:
  "history (on_click s) = history s" "chat_log (on_click s) = chat_log s"
  "awaiting (on_click s) = awaiting s" "send_disabled (on_click s) = send_disabled s"
  "requests (on_click s) = requests s" "input_disabled (on_click s) = input_disabled s"
  by (simp_all add: on_click_def focus_input_def Let_def)

lemma single_flight_busy:
  assumes "single_flight s" "map_of (awaiting s) n = Some ph"
  obtains xs r where "chat_log s = xs @ [r]" "n = length xs" "awaiting s = [(n, ph)]"
    "classes r = bot_classes" "send_disabled s"
proof -
  from assms obtain ph' where a: "awaiting s = [(length (chat_log s) - 1, ph')]" "send_disabled s"
    "chat_log s \<noteq> []" "classes (last (chat_log s)) = bot_classes"
    by (auto simp: single_flight_def)
  from a(1) assms(2) have n: "n = length (chat_log s) - 1" "ph' = ph"
    by (auto split: if_splits)
  from a(3) obtain xs r where xr: "chat_log s = xs @ [r]" by (meson rev_exhaust)
  show thesis
    by (rule that [of xs r]) (use a n xr in auto)
qed

lemma upd_last1 [simp]: "(xs @ [a])[length xs := c] = xs @ [c]"
  by (simp add: list_update_append)

lemma inv_init: "widget_inv init_widget"
  by (simp add: widget_inv_def single_flight_def roles_ok_def replies_shown_def init_widget_def
      system_turn_def assistant_texts_def replied_rows_def replied_rows_of_def)

lemma inv_idle:
  "widget_inv s \<Longrightarrow> \<not> send_disabled s \<Longrightarrow> awaiting s = []"
  by (auto simp: widget_inv_def single_flight_def)

lemma inv_click: "widget_inv s \<Longrightarrow> widget_inv (on_click s)"
  by (simp add: widget_inv_def single_flight_def roles_ok_def replies_shown_def
      assistant_texts_def replied_rows_def)

lemma inv_input: "widget_inv s \<Longrightarrow> widget_inv (s\<lparr>input_value := v\<rparr>)"
  by (simp add: widget_inv_def single_flight_def roles_ok_def replies_shown_def
      assistant_texts_def replied_rows_def)

lemma replied_rows_of_snoc2:
  "replied_rows_of ns (xs @ [a, b]) =
     replied_rows_of ns xs
       @ (if is_reply_row a \<and> length xs \<notin> set ns then [textContent a] else [])
       @ (if is_reply_row b \<and> Suc (length xs) \<notin> set ns then [textContent b] else [])"
  using replied_rows_of_snoc [of ns "xs @ [a]" b] replied_rows_of_snoc [of ns xs a]
  by simp

lemma inv_submit: assumes "widget_inv s" shows "widget_inv (on_submit s)"
proof (cases "send_disabled s \<or> trim (input_value s) = []")
  case True
  with assms show ?thesis by (simp add: on_submit_noop)
next
  case False
  then have idle: "\<not> send_disabled s" "trim (input_value s) \<noteq> []" by auto
  from assms idle have aw: "awaiting s = []" by (simp add: inv_idle)
  define s' where "s' = on_submit s"
  have h: "history s' = history s @ [\<lparr>role = lit ''user'', turn_text = trim (input_value s)\<rparr>]"
    and l: "chat_log s' = chat_log s @
          [\<lparr>classes = [lit ''lesson-chat-row'', lit ''me''], textContent = trim (input_value s)\<rparr>,
           \<lparr>classes = [lit ''lesson-chat-row'', lit ''bot''], textContent = lit ''...''\<rparr>]"
    and a: "awaiting s' = [(Suc (length (chat_log s)), AwaitFetch)]"
    and d: "send_disabled s'"
    unfolding s'_def by (simp_all add: on_submit_idle idle requestReply_begin_eq aw)
  have me: "\<not> is_reply_row \<lparr>classes = [lit ''lesson-chat-row'', lit ''me''], textContent = m\<rparr>" for m
    by (simp add: is_reply_row_def)
  have 1: "single_flight s'"
    by (simp add: single_flight_def a l d bot_classes_def)
  have 2: "roles_ok s'"
    using assms by (simp add: widget_inv_def roles_ok_def h)
  have "replied_rows s' = replied_rows s"
    by (simp add: replied_rows_def a l aw replied_rows_of_snoc2 me replied_rows_of_above1)
  then have 3: "replies_shown s'"
    using assms by (simp add: widget_inv_def replies_shown_def h assistant_texts_def)
  show ?thesis using 1 2 3 by (simp add: widget_inv_def s'_def)
qed

lemma inv_meta:
  assumes "widget_inv s" and "chat_log s = xs @ [r]" and "awaiting s = [(length xs, ph)]"
    and "history s' = history s"
    and "chat_log s' = xs @ [r\<lparr>classes := bot_classes @ [lit ''meta''], textContent := t\<rparr>]"
    and "awaiting s' = []" and "\<not> send_disabled s'"
  shows "widget_inv s'"
proof -
  have 1: "single_flight s'" using assms by (simp add: single_flight_def)
  have 2: "roles_ok s'" using assms by (simp add: widget_inv_def roles_ok_def)
  have "replied_rows s' = replied_rows s"
    using assms
    by (simp add: replied_rows_def replied_rows_of_snoc replied_rows_of_above1 is_reply_row_def)
  then have 3: "replies_shown s'"
    using assms by (simp add: widget_inv_def replies_shown_def assistant_texts_def)
  show ?thesis using 1 2 3 by (simp add: widget_inv_def)
qed

lemma inv_reply:
  assumes "widget_inv s" and "chat_log s = xs @ [r]" and "awaiting s = [(length xs, ph)]"
    and "classes r = bot_classes" and "t \<noteq> []"
    and "history s' = history s @ [\<lparr>role = lit ''assistant'', turn_text = t\<rparr>]"
    and "chat_log s' = xs @ [r\<lparr>textContent := t\<rparr>]"
    and "awaiting s' = []" and "\<not> send_disabled s'"
  shows "widget_inv s'"
proof -
  have 1: "single_flight s'" using assms by (simp add: single_flight_def)
  have 2: "roles_ok s'" using assms by (simp add: widget_inv_def roles_ok_def)
  have "replied_rows s' = replied_rows s @ [t]"
    using assms
    by (simp add: replied_rows_def replied_rows_of_snoc replied_rows_of_above1 is_reply_row_def
        bot_classes_def)
  then have 3: "replies_shown s'"
    using assms by (simp add: widget_inv_def replies_shown_def assistant_texts_def)
  show ?thesis using 1 2 3 by (simp add: widget_inv_def)
qed

lemma resume_fields [simp]:
  "history (resume n s) = history s" "chat_log (resume n s) = chat_log s"
  "send_disabled (resume n s) = send_disabled s" "requests (resume n s) = requests s"
  "awaiting s = [(n, ph)] \<Longrightarrow> awaiting (resume n s) = []"
  by (simp_all add: resume_def)

lemma meta_not_bot: "lit ''meta'' \<notin> set bot_classes"
  by (simp add: bot_classes_def)

lemma inv_fetch_rejected:
  assumes "widget_inv s" and "map_of (awaiting s) n = Some ph"
  shows "widget_inv (fetch_rejected n (resume n s))"
proof -
  from assms have "single_flight s" by (simp add: widget_inv_def)
  from this assms(2) obtain xs r where b: "chat_log s = xs @ [r]" "n = length xs"
    "awaiting s = [(n, ph)]" "classes r = bot_classes" "send_disabled s"
    by (rule single_flight_busy)
  show ?thesis
    by (rule inv_meta [OF assms(1) b(1) b(3) [unfolded b(2)]])
       (simp_all add: b fetch_rejected_def setPending_def focus_input_def classList_add_def
          set_textContent_def meta_not_bot Let_def)
qed

lemma inv_json_rejected:
  assumes "widget_inv s" and "map_of (awaiting s) n = Some ph"
  shows "widget_inv (json_rejected n (resume n s))"
proof -
  from assms have "single_flight s" by (simp add: widget_inv_def)
  from this assms(2) obtain xs r where b: "chat_log s = xs @ [r]" "n = length xs"
    "awaiting s = [(n, ph)]" "classes r = bot_classes" "send_disabled s"
    by (rule single_flight_busy)
  show ?thesis
    by (rule inv_meta [OF assms(1) b(1) b(3) [unfolded b(2)]])
       (simp_all add: b json_rejected_def setPending_def focus_input_def classList_add_def
          set_textContent_def meta_not_bot Let_def)
qed

lemma inv_reply_failed:
  assumes "widget_inv s" and "map_of (awaiting s) n = Some ph"
    and "reply_failed n payload (setPending False (resume n s)) = Inr s'"
  shows "widget_inv s'"
proof -
  from assms have "single_flight s" by (simp add: widget_inv_def)
  from this assms(2) obtain xs r where b: "chat_log s = xs @ [r]" "n = length xs"
    "awaiting s = [(n, ph)]" "classes r = bot_classes" "send_disabled s"
    by (rule single_flight_busy)
  obtain d where d: "detail payload = Inr d" using detail_total by blast
  from assms(3) have s': "s' = set_textContent n (lit ''Could not get a reply'' @ d @ lit ''.'')
      (classList_add n (lit ''meta'') (setPending False (resume n s)))"
    by (simp add: reply_failed_def d Let_def)
  show ?thesis
    by (rule inv_meta [OF assms(1) b(1) b(3) [unfolded b(2)]])
       (simp_all add: s' b setPending_def focus_input_def classList_add_def
          set_textContent_def meta_not_bot Let_def)
qed

lemma reply_text_nonempty:
  "(if truthy (JStr (trim t)) then trim t else lit ''I do not have an answer right now.'') \<noteq> []"
  by simp

lemma inv_reply_ok:
  assumes "widget_inv s" and "map_of (awaiting s) n = Some ph"
  shows "widget_inv (reply_ok n t (setPending False (resume n s)))"
proof -
  from assms have "single_flight s" by (simp add: widget_inv_def)
  from this assms(2) obtain xs r where b: "chat_log s = xs @ [r]" "n = length xs"
    "awaiting s = [(n, ph)]" "classes r = bot_classes" "send_disabled s"
    by (rule single_flight_busy)
  show ?thesis
    by (rule inv_reply [OF assms(1) b(1) b(3) [unfolded b(2)] b(4) reply_text_nonempty [of t]])
       (simp_all add: b reply_ok_def setPending_def focus_input_def set_textContent_def Let_def)
qed

lemma inv_json_resolved:
  assumes "widget_inv s" and "map_of (awaiting s) n = Some ph"
    and "json_resolved n ok payload (resume n s) = Inr s'"
  shows "widget_inv s'"
proof (cases "\<not> ok \<or> \<not> truthy payload")
  case True
  with assms(3) have "reply_failed n payload (setPending False (resume n s)) = Inr s'"
    by (auto simp add: json_resolved_def Let_def)
  with assms(1,2) show ?thesis by (rule inv_reply_failed)
next
  case False
  then have t: "truthy payload" "ok" by auto
  show ?thesis
  proof (cases "case own_prop payload (lit ''text'') of None \<Rightarrow> JUndefined | Some w \<Rightarrow> w")
    case (JStr ts)
    with assms(3) t have "s' = reply_ok n ts (setPending False (resume n s))"
      by (simp add: json_resolved_def get_prop_truthy Let_def)
    with assms(1,2) show ?thesis by (simp add: inv_reply_ok)
  qed (use assms t in \<open>auto simp add: json_resolved_def get_prop_truthy Let_def intro: inv_reply_failed\<close>)
qed

lemma inv_fetch_resolved:
  assumes "widget_inv s" and "map_of (awaiting s) n = Some ph"
  shows "widget_inv (s\<lparr>awaiting := awaiting (resume n s) @ [(n, AwaitJson ok)]\<rparr>)"
proof -
  from assms have "single_flight s" by (simp add: widget_inv_def)
  from this assms(2) obtain xs r where b: "chat_log s = xs @ [r]" "n = length xs"
    "awaiting s = [(n, ph)]" "classes r = bot_classes" "send_disabled s"
    by (rule single_flight_busy)
  from assms(1) show ?thesis
    by (simp add: widget_inv_def single_flight_def roles_ok_def replies_shown_def assistant_texts_def
        replied_rows_def b)
qed

lemma inv_step: "widget_inv s \<Longrightarrow> step e s = Inr s' \<Longrightarrow> widget_inv s'"
proof (cases e)
  case (JsonResolved n payload)
  assume "widget_inv s" "step e s = Inr s'"
  then show ?thesis
    by (auto simp: JsonResolved split: option.splits phase.splits intro: inv_json_resolved)
qed (auto split: option.splits phase.splits
      intro: inv_click inv_input inv_submit inv_fetch_rejected inv_json_rejected inv_fetch_resolved)

lemma reachable_inv: "reachable s \<Longrightarrow> widget_inv s"
  by (induction rule: reachable.induct) (auto intro: inv_init inv_step)

section \<open>The failure text, case by case\<close>

lemma own_prop_falsy: "\<not> truthy v \<Longrightarrow> own_prop v k = None"
  by (cases v) (simp_all add: own_prop_def)

lemma err_message_amended:
  "truthy eo \<Longrightarrow>
   and_then (get_prop eo (lit ''message'')) (\<lambda>m. case m of JStr ms \<Rightarrow> Inr (paren ms) | _ \<Rightarrow> Inr [])
     = Inr (case (case own_prop eo (lit ''message'') of Some (JStr m) \<Rightarrow> Some m | _ \<Rightarrow> None) of
              None \<Rightarrow> [] | Some d \<Rightarrow> paren d)"
  by (simp add: get_prop_truthy split: option.splits jsval.splits)

lemma details_error_amended:
  "(if \<not> truthy err then Inr []
    else (case err of
        JStr e \<Rightarrow> Inr (paren e)
      | _ \<Rightarrow>
        if \<not> truthy err then Inr []
        else and_then (get_prop err (lit ''message'')) (\<lambda>m.
          case m of JStr ms \<Rightarrow> Inr (paren ms) | _ \<Rightarrow> Inr [])))
   = Inr (case (case err of
             JStr e \<Rightarrow> if e \<noteq> [] then Some e else None
           | eo \<Rightarrow> if truthy eo
               then (case own_prop eo (lit ''message'') of Some (JStr m) \<Rightarrow> Some m | _ \<Rightarrow> None)
               else None) of None \<Rightarrow> [] | Some d \<Rightarrow> paren d)"
proof (cases "truthy err")
  case False
  then show ?thesis by (cases err) simp_all
next
  case True
  then show ?thesis by (cases err) (simp_all add: own_prop_def split: option.splits jsval.splits)
qed

lemma detail_details_amended:
  assumes "truthy p"
  shows "detail_details p = Inr (case amended_details_error p of None \<Rightarrow> [] | Some d \<Rightarrow> paren d)"
proof (cases "own_prop p (lit ''details'')")
  case None
  with assms show ?thesis
    by (simp add: detail_details_def amended_details_error_def get_prop_truthy)
next
  case (Some d)
  show ?thesis
  proof (cases "truthy d")
    case False
    with Some assms show ?thesis
      by (simp add: detail_details_def amended_details_error_def get_prop_truthy own_prop_falsy)
  next
    case True
    show ?thesis
    proof (cases "own_prop d (lit ''error'')")
      case None
      with Some True assms show ?thesis
        by (simp add: detail_details_def amended_details_error_def get_prop_truthy)
    next
      case (Some err)
      have "detail_details p =
        (if \<not> truthy err then Inr []
         else (case err of
             JStr e \<Rightarrow> Inr (paren e)
           | _ \<Rightarrow>
             if \<not> truthy err then Inr []
             else and_then (get_prop err (lit ''message'')) (\<lambda>m.
               case m of JStr ms \<Rightarrow> Inr (paren ms) | _ \<Rightarrow> Inr [])))"
        using assms \<open>own_prop p (lit ''details'') = Some d\<close> True Some
        by (simp add: detail_details_def get_prop_truthy)
      also note details_error_amended
      finally show ?thesis
        using \<open>own_prop p (lit ''details'') = Some d\<close> Some
        by (simp add: amended_details_error_def split: jsval.splits)
    qed
  qed
qed

lemma detail_error_amended:
  assumes "truthy p"
  shows "detail_error p =
    Inr (case own_prop p (lit ''error'') of
           Some (JStr e) \<Rightarrow>
             if e \<noteq> [] then paren e
             else (case amended_details_error p of None \<Rightarrow> [] | Some d \<Rightarrow> paren d)
         | Some eo \<Rightarrow>
             if truthy eo then []
             else (case amended_details_error p of None \<Rightarrow> [] | Some d \<Rightarrow> paren d)
         | None \<Rightarrow> (case amended_details_error p of None \<Rightarrow> [] | Some d \<Rightarrow> paren d))"
proof (cases "own_prop p (lit ''error'')")
  case None
  with assms show ?thesis
    by (simp add: detail_error_def get_prop_truthy detail_details_amended)
next
  case (Some e)
  with assms show ?thesis
    by (cases e) (simp_all add: detail_error_def get_prop_truthy detail_details_amended)
qed

lemma detail_amended:
  "detail p = Inr d \<Longrightarrow> lit ''Could not get a reply'' @ d @ lit ''.'' = amended_text p"
proof (cases "truthy p")
  case False
  assume "detail p = Inr d"
  with False show ?thesis
    by (simp add: detail_def amended_text_def amended_message_def amended_details_error_def own_prop_falsy)
next
  case True
  assume d: "detail p = Inr d"
  show ?thesis
  proof (cases "own_prop p (lit ''message'')")
    case None
    with True d show ?thesis
      by (simp add: detail_def detail_message_def get_prop_truthy detail_error_amended
          amended_text_def amended_message_def)
  next
    case (Some m)
    with True d show ?thesis
      by (cases m) (auto simp add: detail_def detail_message_def get_prop_truthy detail_error_amended
          amended_text_def amended_message_def split: if_splits)
  qed
qed

lemma failure_path:
  assumes "\<not> ok \<or> \<not> has_string_text payload"
  shows "json_resolved n ok payload s = reply_failed n payload (setPending False s)"
proof (cases "\<not> ok \<or> \<not> truthy payload")
  case True
  then show ?thesis by (auto simp: json_resolved_def Let_def)
next
  case False
  with assms show ?thesis
    by (auto simp: json_resolved_def Let_def get_prop_truthy has_string_text_def
        split: option.splits jsval.splits)
qed

section \<open>The example states are reachable\<close>

lemma reachable_run: "reachable s \<Longrightarrow> run es s = Inr s' \<Longrightarrow> reachable s'"
proof (induction es arbitrary: s)
  case Nil
  then show ?case by simp
next
  case (Cons e es)
  from step_total obtain s1 where s1: "step e s = Inr s1" by blast
  with Cons.prems have "reachable s1" "run es s1 = Inr s'"
    by (auto intro: reachable_step)
  then show ?case by (rule Cons.IH)
qed

lemma reachable_typed: "reachable typed_widget"
  unfolding typed_widget_def
  by (rule reachable_step [OF reachable_init, of "Input (lit '' hi '')"]) simp

lemma reachable_pending: "reachable pending_widget"
  unfolding pending_widget_def
  by (rule reachable_step [OF reachable_typed, of Submit]) simp

lemma pending_widget_eq:
  "pending_widget =
     \<lparr>history = [system_turn, user_turn (lit ''hi'')],
      chat_log = [\<lparr>classes = [lit ''lesson-chat-row'', lit ''me''], textContent = lit ''hi''\<rparr>,
                  \<lparr>classes = [lit ''lesson-chat-row'', lit ''bot''], textContent = lit ''...''\<rparr>],
      input_value = [], input_disabled = True, send_disabled = True, input_focused = False,
      container_open = False,
      requests = [\<lparr>req_history = [system_turn, user_turn (lit ''hi'')],
                   req_model = lit ''gpt-5-2025-08-07''\<rparr>],
      awaiting = [(1, AwaitFetch)]\<rparr>"
proof -
  have t: "trim (lit '' hi '') = lit ''hi''" by (simp add: trim_def is_ws_def lit_def)
  show ?thesis
    by (simp add: pending_widget_def typed_widget_def init_widget_def on_submit_def t
        requestReply_begin_eq user_turn_def Let_def)
qed

lemma reachable_answered: "reachable answered_widget"
proof -
  have "reachable (pending_widget\<lparr>awaiting := awaiting (resume 1 pending_widget) @ [(1, AwaitJson True)]\<rparr>)"
    (is "reachable ?s")
    by (rule reachable_step [OF reachable_pending, of "FetchResolved 1 True"])
       (simp add: pending_widget_eq)
  moreover have "step (JsonResolved 1 hello_payload) ?s = Inr answered_widget"
    by (simp add: pending_widget_eq resume_def json_resolved_def hello_payload_def
        answered_widget_def)
  ultimately show ?thesis by (rule reachable_step)
qed

lemma answered_widget_eq:
  "answered_widget =
     \<lparr>history = [system_turn, user_turn (lit ''hi''),
                 \<lparr>role = lit ''assistant'', turn_text = lit ''Hello!''\<rparr>],
      chat_log = [\<lparr>classes = [lit ''lesson-chat-row'', lit ''me''], textContent = lit ''hi''\<rparr>,
                  \<lparr>classes = [lit ''lesson-chat-row'', lit ''bot''], textContent = lit ''Hello!''\<rparr>],
      input_value = [], input_disabled = False, send_disabled = False, input_focused = True,
      container_open = False,
      requests = [\<lparr>req_history = [system_turn, user_turn (lit ''hi'')],
                   req_model = lit ''gpt-5-2025-08-07''\<rparr>],
      awaiting = []\<rparr>"
proof -
  have t: "trim (lit ''  Hello!  '') = lit ''Hello!''" by (simp add: trim_def is_ws_def lit_def)
  show ?thesis
    by (simp add: answered_widget_def pending_widget_eq resume_def reply_ok_def t
        setPending_def focus_input_def set_textContent_def)
qed

section \<open>What ending a call does to the controls and to the history\<close>

lemma setPending_False_flags:
  "\<not> send_disabled (setPending False s)" "\<not> input_disabled (setPending False s)"
  "input_focused (setPending False s)"
  by (simp_all add: setPending_def focus_input_def)

lemma row_edit_fields [simp]:
  "send_disabled (set_textContent n t s) = send_disabled s"
  "input_disabled (set_textContent n t s) = input_disabled s"
  "input_focused (set_textContent n t s) = input_focused s"
  "history (set_textContent n t s) = history s"
  "send_disabled (classList_add n c s) = send_disabled s"
  "input_disabled (classList_add n c s) = input_disabled s"
  "input_focused (classList_add n c s) = input_focused s"
  "history (classList_add n c s) = history s"
  by (simp_all add: set_textContent_def classList_add_def)

lemma setPending_history [simp]: "history (setPending b s) = history s"
  by (simp add: setPending_def focus_input_def Let_def)

lemma rejected_flags:
  "\<not> send_disabled (fetch_rejected n s)" "\<not> input_disabled (fetch_rejected n s)"
  "input_focused (fetch_rejected n s)"
  "\<not> send_disabled (json_rejected n s)" "\<not> input_disabled (json_rejected n s)"
  "input_focused (json_rejected n s)"
  by (simp_all add: fetch_rejected_def json_rejected_def setPending_def focus_input_def)

lemma rejected_history [simp]:
  "history (fetch_rejected n s) = history s" "history (json_rejected n s) = history s"
  by (simp_all add: fetch_rejected_def json_rejected_def)

lemma reply_failed_cases:
  assumes "reply_failed n payload s = Inr s'"
  obtains d where "s' = set_textContent n (lit ''Could not get a reply'' @ d @ lit ''.'')
      (classList_add n (lit ''meta'') s)"
proof -
  obtain d where d: "detail payload = Inr d" using detail_total by blast
  with assms have "s' = set_textContent n (lit ''Could not get a reply'' @ d @ lit ''.'')
      (classList_add n (lit ''meta'') s)"
    by (simp add: reply_failed_def Let_def)
  then show thesis by (rule that)
qed

lemma json_resolved_cases:
  assumes "json_resolved n ok payload s = Inr s'"
  obtains (failed) "reply_failed n payload (setPending False s) = Inr s'"
  | (replied) t where "s' = reply_ok n t (setPending False s)"
proof (cases "\<not> ok \<or> \<not> truthy payload")
  case True
  with assms have "reply_failed n payload (setPending False s) = Inr s'"
    by (auto simp: json_resolved_def Let_def)
  then show thesis by (rule failed)
next
  case False
  then have t: "truthy payload" "ok" by auto
  show thesis
  proof (cases "case own_prop payload (lit ''text'') of None \<Rightarrow> JUndefined | Some w \<Rightarrow> w")
    case (JStr ts)
    with assms t have "s' = reply_ok n ts (setPending False s)"
      by (simp add: json_resolved_def get_prop_truthy Let_def)
    then show thesis by (rule replied)
  qed (use assms t in \<open>auto simp add: json_resolved_def get_prop_truthy Let_def intro: failed\<close>)
qed

lemma json_resolved_flags:
  assumes "json_resolved n ok payload s = Inr s'"
  shows "\<not> send_disabled s' \<and> \<not> input_disabled s' \<and> input_focused s'"
  using assms
proof (cases rule: json_resolved_cases)
  case failed
  then show ?thesis
    by (rule reply_failed_cases) (simp add: setPending_False_flags)
next
  case (replied t)
  then show ?thesis
    by (simp add: reply_ok_def Let_def setPending_False_flags)
qed

lemma json_resolved_history:
  assumes "json_resolved n ok payload s = Inr s'"
  shows "\<exists>ys. history s' = history s @ ys"
  using assms
proof (cases rule: json_resolved_cases)
  case failed
  then show ?thesis by (rule reply_failed_cases) simp
next
  case (replied t)
  then show ?thesis by (simp add: reply_ok_def Let_def)
qed

lemma step_history: "step e s = Inr s' \<Longrightarrow> \<exists>ys. history s' = history s @ ys"
proof (cases e)
  case Submit
  assume "step e s = Inr s'"
  with Submit show ?thesis
    by (cases "send_disabled s \<or> trim (input_value s) = []")
       (auto simp: on_submit_noop on_submit_idle requestReply_begin_eq)
next
  case (JsonResolved n payload)
  assume "step e s = Inr s'"
  with JsonResolved show ?thesis
    by (auto split: option.splits phase.splits dest: json_resolved_history)
qed (auto split: option.splits phase.splits)

lemma completes_flags:
  assumes "completes e s" and "step e s = Inr s'"
  shows "\<not> send_disabled s' \<and> \<not> input_disabled s' \<and> input_focused s'"
proof (cases e)
  case (FetchRejected n)
  with assms show ?thesis by (auto simp: completes_def rejected_flags)
next
  case (JsonRejected n)
  with assms show ?thesis
    by (auto simp: completes_def rejected_flags split: option.splits phase.splits)
next
  case (JsonResolved n payload)
  with assms show ?thesis
    by (auto simp: completes_def split: option.splits phase.splits dest: json_resolved_flags)
qed (use assms in \<open>simp_all add: completes_def\<close>)

section \<open>A call run to its end is a run of the machine\<close>

lemma awaiting_restore: "awaiting s = [] \<Longrightarrow> s\<lparr>awaiting := []\<rparr> = s"
  by (cases s) simp

lemma and_then_run_Nil [simp]: "and_then m (run []) = m"
  by (cases m) (simp_all add: and_then_def)

lemma exchange_as_events:
  assumes "awaiting s = []" and "\<not> send_disabled s" and "trim (input_value s) \<noteq> []"
  shows "run (Submit # events_of (Suc (length (chat_log s))) out) s
    = requestReply (trim (input_value s)) out (s\<lparr>input_value := []\<rparr>)"
proof -
  define n where "n = Suc (length (chat_log s))"
  define s1 where "s1 = snd (requestReply_begin (trim (input_value s)) (s\<lparr>input_value := []\<rparr>))"
  have b: "requestReply_begin (trim (input_value s)) (s\<lparr>input_value := []\<rparr>) = (n, s1)"
    by (simp add: n_def s1_def requestReply_begin_eq)
  have a1: "awaiting s1 = []"
    using assms(1) by (simp add: s1_def requestReply_begin_eq)
  have sub: "on_submit s = s1\<lparr>awaiting := [(n, AwaitFetch)]\<rparr>"
    using assms by (simp add: on_submit_def b a1 Let_def)
  have r1: "resume n (s1\<lparr>awaiting := [(n, ph)]\<rparr>) = s1" for ph
    using a1 by (simp add: resume_def awaiting_restore)
  show ?thesis
    by (cases out)
       (simp_all add: sub n_def [symmetric] r1 a1 requestReply_def b)
qed

text \<open>
  While the send button is disabled, a click, an edit of the text field and a
  submit leave the history, the log, the requests and the suspended calls alone,
  so the events that may fall between the steps of a call do not change what the
  call does to them.
\<close>

lemma user_events_while_pending:
  assumes "send_disabled s" and "e = Click \<or> e = Submit \<or> e = Input v"
  shows "\<exists>s'. step e s = Inr s' \<and> history s' = history s \<and> chat_log s' = chat_log s \<and>
    requests s' = requests s \<and> awaiting s' = awaiting s \<and> send_disabled s'"
  using assms by (auto simp: on_submit_noop)

section \<open>The claims\<close>

lemma init_history: "history init_widget = [system_turn]"
  by (simp add: init_widget_def)

lemma trim_examples:
  "trim (lit '' hi '') = lit ''hi''"
  "trim (lit ''  Hello!  '') = lit ''Hello!''"
  "trim (lit ''   '') = []"
  by (simp_all add: trim_def is_ws_def lit_def)

text \<open>
  Claim C1, as amended. For every parsed response that has an HTTP error status
  or lacks a string-typed \<^verbatim>\<open>text\<close> field, the row shows "Could not get a reply",
  a detail in parentheses when there is one, and a full stop. The detail is the
  trimmed top-level \<^verbatim>\<open>message\<close> when that is a string not empty once trimmed;
  else, when the top-level \<^verbatim>\<open>error\<close> is truthy, it is \<^verbatim>\<open>error\<close> itself if a
  string and there is no detail otherwise; else it is \<^verbatim>\<open>details.error\<close> when
  that is a non-empty string, or the string \<^verbatim>\<open>message\<close> of a truthy
  \<^verbatim>\<open>details.error\<close>; else there is none.
\<close>

theorem failure_detail_amended:
  assumes "\<not> ok \<or> \<not> has_string_text payload"
  shows "displayed message (Parsed ok payload) s = Some (amended_text payload)"
proof -
  obtain d where d: "detail payload = Inr d" using detail_total by blast
  have "displayed message (Parsed ok payload) s
      = Some (lit ''Could not get a reply'' @ d @ lit ''.'')"
    by (simp add: displayed_def requestReply_def requestReply_begin_eq placeholder_def
        failure_path [OF assms] reply_failed_def d set_textContent_def classList_add_def
        setPending_def focus_input_def Let_def)
  then show ?thesis by (simp add: detail_amended [OF d])
qed

theorem failure_detail_amended_witness:
  "\<not> has_string_text shadowed_payload \<and>
   displayed (lit ''hi'') (Parsed False shadowed_payload) init_widget
     = Some (lit ''Could not get a reply.'')"
  using failure_detail_amended [of False shadowed_payload "lit ''hi''" init_widget]
  by (simp add: amended_text_def amended_message_def amended_details_error_def
      has_string_text_def shadowed_payload_def own_prop_def lit_def)

text \<open>
  Claim C1 as the specification states it fails on
  \<^verbatim>\<open>{ error: 42, details: { error: "boom" } }\<close> with a non-ok status: the
  specification's extraction falls through to \<^verbatim>\<open>details.error\<close> and gives
  "Could not get a reply (boom).", while the code, having found a truthy
  \<^verbatim>\<open>error\<close> that is not a string, shows "Could not get a reply.".
\<close>

theorem failure_detail_counterexample:
  "displayed (lit ''hi'') (Parsed False shadowed_payload) init_widget
     = Some (lit ''Could not get a reply.'') \<and>
   spec_text shadowed_payload = lit ''Could not get a reply (boom).'' \<and>
   displayed (lit ''hi'') (Parsed False shadowed_payload) init_widget
     \<noteq> Some (spec_text shadowed_payload)"
  by (simp add: displayed_def shadowed_payload_def init_widget_def exchange_defs
      detail_def detail_message_def detail_error_def detail_details_def
      spec_text_def spec_message_def spec_error_def spec_details_error_def own_prop_def
      paren_def lit_def)

text \<open>
  Claim C2. For the payload \<^verbatim>\<open>{ error: "rate_limited" }\<close> with a non-ok status the
  row shows exactly "Could not get a reply (rate_limited)." and the history has
  grown by the user turn alone; for \<^verbatim>\<open>{ details: { error: { message: "bad token" } } }\<close>
  the row shows exactly "Could not get a reply (bad token).".
\<close>

theorem error_payload_examples:
  "(\<exists>s'. requestReply message (Parsed False rate_limited_payload) s = Inr s' \<and>
      textContent (chat_log s' ! placeholder message s)
        = lit ''Could not get a reply (rate_limited).'' \<and>
      history s' = history s @ [user_turn message]) \<and>
   (\<exists>s'. requestReply message (Parsed ok bad_token_payload) s = Inr s' \<and>
      textContent (chat_log s' ! placeholder message s)
        = lit ''Could not get a reply (bad token).'')"
  by (simp add: rate_limited_payload_def bad_token_payload_def exchange_defs detail_def
      detail_message_def detail_error_def detail_details_def paren_def lit_def)

theorem error_payload_examples_witness:
  "(\<exists>s'. requestReply (lit ''hi'') (Parsed False rate_limited_payload) init_widget = Inr s' \<and>
      textContent (chat_log s' ! placeholder (lit ''hi'') init_widget)
        = lit ''Could not get a reply (rate_limited).'' \<and>
      history s' = [system_turn, user_turn (lit ''hi'')]) \<and>
   (\<exists>s'. requestReply (lit ''hi'') (Parsed True bad_token_payload) init_widget = Inr s' \<and>
      textContent (chat_log s' ! placeholder (lit ''hi'') init_widget)
        = lit ''Could not get a reply (bad token).'')"
  using error_payload_examples [of "lit ''hi''" init_widget True]
  by (simp add: init_history)

text \<open>
  Claim C3. A call of \<^verbatim>\<open>requestReply\<close> appends exactly one user-role entry to the
  history and then issues one request, whose history is the new one and so ends
  with that entry. A submit whose trimmed input is not empty makes that call with
  the trimmed input (when the send button is not disabled, the case in which a
  submit is taken at all).
\<close>

theorem submit_appends_user_turn:
  "(\<exists>r. history (snd (requestReply_begin message s)) = history s @ [user_turn message] \<and>
      requests (snd (requestReply_begin message s)) = requests s @ [r] \<and>
      req_history r = history (snd (requestReply_begin message s)) \<and>
      last (req_history r) = user_turn message) \<and>
   (trim (input_value s) \<noteq> [] \<and> \<not> send_disabled s \<longrightarrow>
     (\<exists>s' r. step Submit s = Inr s' \<and>
       history s' = history s @ [user_turn (trim (input_value s))] \<and>
       requests s' = requests s @ [r] \<and>
       req_history r = history s' \<and>
       last (req_history r) = user_turn (trim (input_value s))))"
  by (simp add: on_submit_idle requestReply_begin_eq user_turn_def)

theorem submit_appends_user_turn_witness:
  "trim (input_value typed_widget) \<noteq> [] \<and> \<not> send_disabled typed_widget \<and>
   (\<exists>s' r. step Submit typed_widget = Inr s' \<and>
     history s' = [system_turn, user_turn (lit ''hi'')] \<and>
     requests s' = [r] \<and>
     req_history r = history s' \<and>
     last (req_history r) = user_turn (lit ''hi''))"
  using submit_appends_user_turn [of "lit ''hi''" typed_widget]
  by (auto simp add: typed_widget_def init_widget_def trim_examples)

text \<open>
  Claim C4. For a success response whose \<^verbatim>\<open>text\<close> is a string: if the trimmed text
  is not empty, the row shows it and the history grows by the user turn and an
  assistant turn with the trimmed text; if it is empty, the row shows
  "I do not have an answer right now." and that phrase is the assistant turn's
  text.
\<close>

theorem success_reply:
  assumes "get_prop payload (lit ''text'') = Inr (JStr t)"
  shows "\<exists>s'. requestReply message (Parsed True payload) s = Inr s' \<and>
     (trim t \<noteq> [] \<longrightarrow>
        textContent (chat_log s' ! placeholder message s) = trim t \<and>
        history s' = history s @
          [user_turn message, \<lparr>role = lit ''assistant'', turn_text = trim t\<rparr>]) \<and>
     (trim t = [] \<longrightarrow>
        textContent (chat_log s' ! placeholder message s)
          = lit ''I do not have an answer right now.'' \<and>
        history s' = history s @
          [user_turn message,
           \<lparr>role = lit ''assistant'', turn_text = lit ''I do not have an answer right now.''\<rparr>])"
proof -
  from assms have "truthy payload" by (cases payload) simp_all
  with assms show ?thesis by (simp add: exchange_defs)
qed

theorem success_reply_witness:
  "get_prop hello_payload (lit ''text'') = Inr (JStr (lit ''  Hello!  '')) \<and>
   trim (lit ''  Hello!  '') \<noteq> [] \<and>
   (\<exists>s'. requestReply (lit ''hi'') (Parsed True hello_payload) init_widget = Inr s' \<and>
      textContent (chat_log s' ! placeholder (lit ''hi'') init_widget) = lit ''Hello!'' \<and>
      history s' = [system_turn, user_turn (lit ''hi''),
         \<lparr>role = lit ''assistant'', turn_text = lit ''Hello!''\<rparr>]) \<and>
   get_prop blank_payload (lit ''text'') = Inr (JStr (lit ''   '')) \<and>
   trim (lit ''   '') = [] \<and>
   (\<exists>s'. requestReply (lit ''hi'') (Parsed True blank_payload) init_widget = Inr s' \<and>
      textContent (chat_log s' ! placeholder (lit ''hi'') init_widget)
        = lit ''I do not have an answer right now.'' \<and>
      history s' = [system_turn, user_turn (lit ''hi''),
         \<lparr>role = lit ''assistant'', turn_text = lit ''I do not have an answer right now.''\<rparr>])"
proof -
  have g: "get_prop hello_payload (lit ''text'') = Inr (JStr (lit ''  Hello!  ''))"
    "get_prop blank_payload (lit ''text'') = Inr (JStr (lit ''   ''))"
    by (simp_all add: hello_payload_def blank_payload_def)
  show ?thesis
    using success_reply [OF g(1), of "lit ''hi''" init_widget]
      success_reply [OF g(2), of "lit ''hi''" init_widget]
    by (simp add: trim_examples g init_history)
qed

text \<open>
  Claim C5. When the fetch itself fails, the history afterwards is the history
  before with the user turn appended, one entry longer, and the placeholder row
  carries the class \<^verbatim>\<open>meta\<close> and the text "Network error. Please try again.".
\<close>

theorem transport_failure:
  "\<exists>s'. requestReply message TransportFailure s = Inr s' \<and>
     length (history s') = length (history s) + 1 \<and>
     history s' = history s @ [user_turn message] \<and>
     lit ''meta'' \<in> set (classes (chat_log s' ! placeholder message s)) \<and>
     textContent (chat_log s' ! placeholder message s)
       = lit ''Network error. Please try again.''"
  by (simp add: exchange_defs)

theorem transport_failure_witness:
  "\<exists>s'. requestReply (lit ''hi'') TransportFailure init_widget = Inr s' \<and>
     length (history s') = 2 \<and>
     history s' = [system_turn, user_turn (lit ''hi'')] \<and>
     lit ''meta'' \<in> set (classes (chat_log s' ! placeholder (lit ''hi'') init_widget)) \<and>
     textContent (chat_log s' ! placeholder (lit ''hi'') init_widget)
       = lit ''Network error. Please try again.''"
  using transport_failure [of "lit ''hi''" init_widget]
  by (auto simp add: init_history)

text \<open>
  Claim C6. A submit while a request is pending (a call is suspended, or the send
  button is disabled), and a submit whose input trims to the empty string, leave
  the whole state as it is: the history, the requests issued and the log.
\<close>

theorem submit_ignored:
  assumes "reachable s"
    and "awaiting s \<noteq> [] \<or> send_disabled s \<or> trim (input_value s) = []"
  shows "step Submit s = Inr s"
proof -
  from assms(1) have "widget_inv s" by (rule reachable_inv)
  then have "awaiting s \<noteq> [] \<longrightarrow> send_disabled s"
    by (auto simp: widget_inv_def single_flight_def)
  with assms(2) have "send_disabled s \<or> trim (input_value s) = []" by blast
  then show ?thesis by (simp add: on_submit_noop)
qed

theorem submit_ignored_witness:
  "reachable pending_widget \<and> awaiting pending_widget \<noteq> [] \<and>
   step Submit pending_widget = Inr pending_widget \<and>
   reachable init_widget \<and> trim (input_value init_widget) = [] \<and>
   step Submit init_widget = Inr init_widget"
  using submit_ignored [of pending_widget] submit_ignored [of init_widget]
    reachable_pending reachable_init
  by (simp add: pending_widget_eq init_widget_def trim_def)

text \<open>
  Claim C7. Whichever way a call of \<^verbatim>\<open>requestReply\<close> ends (transport failure,
  malformed body, failure reply or success), it ends without an exception, with
  the send button and the input enabled and the input focused; no event makes
  the machine raise; and in a reachable state an event that ends the waiting
  call leaves no call suspended.
\<close>

theorem exchange_restores_input:
  "(\<exists>s'. requestReply message out s = Inr s' \<and>
      \<not> send_disabled s' \<and> \<not> input_disabled s' \<and> input_focused s') \<and>
   (\<exists>s'. step e s = Inr s') \<and>
   (reachable s \<and> completes e s \<longrightarrow>
      (\<exists>s'. step e s = Inr s' \<and> awaiting s' = [] \<and>
         \<not> send_disabled s' \<and> \<not> input_disabled s' \<and> input_focused s'))"
proof -
  have 1: "\<exists>s'. requestReply message out s = Inr s' \<and>
      \<not> send_disabled s' \<and> \<not> input_disabled s' \<and> input_focused s'"
  proof (cases out)
    case (Parsed ok p)
    obtain s' where s': "requestReply message out s = Inr s'"
      using requestReply_total by blast
    with Parsed have "json_resolved (fst (requestReply_begin message s)) ok p
        (snd (requestReply_begin message s)) = Inr s'"
      by (simp add: requestReply_def split: prod.splits)
    from json_resolved_flags [OF this] s' show ?thesis by simp
  qed (simp_all add: requestReply_def rejected_flags split: prod.splits)
  have 3: "\<exists>s'. step e s = Inr s' \<and> awaiting s' = [] \<and>
         \<not> send_disabled s' \<and> \<not> input_disabled s' \<and> input_focused s'"
    if r: "reachable s" and c: "completes e s"
  proof -
    obtain s' where s': "step e s = Inr s'" using step_total by blast
    from c s' have f: "\<not> send_disabled s' \<and> \<not> input_disabled s' \<and> input_focused s'"
      by (rule completes_flags)
    from r s' have "widget_inv s'" by (auto intro: reachable_inv reachable_step)
    with f have "awaiting s' = []" by (simp add: inv_idle)
    with s' f show ?thesis by simp
  qed
  from 1 3 step_total show ?thesis by blast
qed

theorem exchange_restores_input_witness:
  "reachable pending_widget \<and> completes (FetchRejected 1) pending_widget \<and>
   (\<exists>s'. step (FetchRejected 1) pending_widget = Inr s' \<and> awaiting s' = [] \<and>
      \<not> send_disabled s' \<and> \<not> input_disabled s' \<and> input_focused s')"
  using exchange_restores_input [of "lit ''hi''" TransportFailure pending_widget "FetchRejected 1"]
    reachable_pending
  by (simp add: completes_def pending_widget_eq)

text \<open>
  Claim C8. In every reachable state the history starts with the fixed system
  turn and every entry has the role "system", "user" or "assistant"; and every
  event leaves the history it found as a prefix of the new one, so that no entry
  is removed or reordered.
\<close>

theorem history_append_only:
  assumes "reachable s"
  shows "history s \<noteq> [] \<and> hd (history s) = system_turn \<and>
    (\<forall>t\<in>set (history s). role t \<in> {lit ''system'', lit ''user'', lit ''assistant''}) \<and>
    (\<forall>e. \<exists>s' ys. step e s = Inr s' \<and> history s' = history s @ ys)"
proof -
  from assms have "roles_ok s" using reachable_inv by (simp add: widget_inv_def)
  moreover have "\<exists>s' ys. step e s = Inr s' \<and> history s' = history s @ ys" for e
    using step_total [of e s] step_history [of e s] by blast
  ultimately show ?thesis by (simp add: roles_ok_def list_all_iff)
qed

theorem history_append_only_witness:
  "reachable answered_widget \<and>
   history answered_widget = [system_turn, user_turn (lit ''hi''),
      \<lparr>role = lit ''assistant'', turn_text = lit ''Hello!''\<rparr>] \<and>
   hd (history answered_widget) = system_turn \<and>
   map role (history answered_widget) = [lit ''system'', lit ''user'', lit ''assistant''] \<and>
   (\<forall>e. \<exists>s' ys. step e answered_widget = Inr s' \<and> history s' = history answered_widget @ ys)"
  using history_append_only [OF reachable_answered] reachable_answered
  by (simp add: answered_widget_eq system_turn_def user_turn_def)

text \<open>
  Claim C9. When the body parses to JSON \<^verbatim>\<open>null\<close>, whatever the status, the row
  does not show "Invalid response from server." but exactly
  "Could not get a reply.", with no detail, and the history holds the user turn
  and nothing more.
\<close>

theorem null_payload:
  "\<exists>s'. requestReply message (Parsed ok JNull) s = Inr s' \<and>
     textContent (chat_log s' ! placeholder message s) = lit ''Could not get a reply.'' \<and>
     textContent (chat_log s' ! placeholder message s) \<noteq> lit ''Invalid response from server.'' \<and>
     history s' = history s @ [user_turn message]"
  by (simp add: exchange_defs detail_def lit_def)

theorem null_payload_witness:
  "\<exists>s'. requestReply (lit ''hi'') (Parsed True JNull) init_widget = Inr s' \<and>
     textContent (chat_log s' ! placeholder (lit ''hi'') init_widget)
       = lit ''Could not get a reply.'' \<and>
     textContent (chat_log s' ! placeholder (lit ''hi'') init_widget)
       \<noteq> lit ''Invalid response from server.'' \<and>
     history s' = [system_turn, user_turn (lit ''hi'')]"
  using null_payload [of "lit ''hi''" True init_widget]
  by (simp add: init_history)

text \<open>
  Claim C10. In every reachable state every assistant-role entry of the history
  has a text that is not empty, and the texts of the assistant entries are, in
  order, the texts shown by the reply rows of the log.
\<close>

theorem assistant_turns_shown:
  assumes "reachable s"
  shows "(\<forall>t\<in>set (history s). role t = lit ''assistant'' \<longrightarrow> turn_text t \<noteq> []) \<and>
    assistant_texts s = replied_rows s"
  using reachable_inv [OF assms] by (simp add: widget_inv_def replies_shown_def list_all_iff)

theorem assistant_turns_shown_witness:
  "reachable answered_widget \<and>
   assistant_texts answered_widget = [lit ''Hello!''] \<and>
   [] \<notin> set (assistant_texts answered_widget) \<and>
   replied_rows answered_widget = [lit ''Hello!'']"
proof -
  have a: "assistant_texts answered_widget = [lit ''Hello!'']"
    by (simp add: assistant_texts_def answered_widget_eq system_turn_def user_turn_def)
  from assistant_turns_shown [OF reachable_answered]
  have "assistant_texts answered_widget = replied_rows answered_widget" by simp
  with a have r: "replied_rows answered_widget = [lit ''Hello!'']" by simp
  have "[] \<notin> set (assistant_texts answered_widget)" by (simp add: a)
  with a r reachable_answered show ?thesis by simp
qed

end
